theory Spec2Isabelle
  imports Complex_Main "HOL-Library.Multiset"
begin

section \<open>Data model of etl.py\<close>

text \<open>
  The rows of the two JSON inputs. A column read from JSON may be null; the
  columns compared by the songplays join are options, so that SQL's
  three-valued equality can be written out. A double column is a \<open>real\<close>:
  a finite double is one real number, and the engine's equality on finite
  doubles is equality of these numbers. A row whose columns are all null (what
  the reader makes of a record it cannot parse) is \<open>None\<close> in a data frame of
  optional rows.
\<close>

record catalog_record =
  song_id :: string
  title :: "string option"
  artist_id :: string
  artist_name :: "string option"
  artist_location :: string
  artist_latitude :: "real option"
  artist_longitude :: "real option"
  song_year :: int
  duration :: "real option"

record event_record =
  ts :: int
  page :: string
  userId :: string
  firstName :: string
  lastName :: string
  gender :: string
  level :: string
  song :: "string option"
  artist :: "string option"
  length_col :: "real option"
  sessionId :: int
  location :: string
  userAgent :: string

text \<open>The rows of the five tables written by the job.\<close>

record song_row =
  s_song_id :: string
  s_title :: "string option"
  s_artist_id :: string
  s_year :: int
  s_duration :: "real option"

record artist_row =
  a_artist_id :: string
  a_artist_name :: "string option"
  a_artist_location :: string
  a_artist_latitude :: "real option"
  a_artist_longitude :: "real option"

record user_row =
  u_userId :: string
  u_firstName :: string
  u_lastName :: string
  u_gender :: string
  u_level :: string

section \<open>Exceptions\<close>

text \<open>
  What a call of etl.py can raise: the udfs' \<open>fromtimestamp\<close> (ValueError),
  the reader on a file it cannot read, and \<open>spark.sql\<close> on a query that does
  not pass analysis.
\<close>

datatype error = ValueError | ReadError | AnalysisException

section \<open>The query \<open>select distinct on (key) ...\<close>\<close>

text \<open>
  Spark SQL has no \<open>DISTINCT ON\<close>: its select clause is
  \<open>SELECT [ALL | DISTINCT] item, ...\<close>, and \<open>on\<close> is accepted there as a
  name. So \<open>select distinct on (song_id) song_id, title, ...\<close> is read as
  \<open>DISTINCT\<close> over the items \<open>on(song_id) AS song_id\<close>, \<open>title\<close>, ...: the
  first item calls a function named \<open>on\<close>. Spark has no such function and
  etl.py registers none (its udfs are column functions without a name in SQL),
  so the analysis of the query fails and \<open>spark.sql\<close> raises. That happens in
  the call of \<open>spark.sql\<close> itself, before a row of the view is computed:
  \<open>view\<close> is the view's content as it would be computed, \<open>key\<close> and \<open>columns\<close>
  are what the query names.
\<close>

definition spark_sql_distinct_on ::
  "('r \<Rightarrow> 'k) \<Rightarrow> ('r \<Rightarrow> 'c) \<Rightarrow> error + 'r list \<Rightarrow> error + 'c list" where
  "spark_sql_distinct_on key columns view = Inl AnalysisException"

section \<open>process\_song\_data: the songs and artists tables\<close>

definition song_columns :: "catalog_record \<Rightarrow> song_row" where
  "song_columns c =
     \<lparr>s_song_id = song_id c, s_title = title c, s_artist_id = artist_id c,
      s_year = song_year c, s_duration = duration c\<rparr>"

definition artist_columns :: "catalog_record \<Rightarrow> artist_row" where
  "artist_columns c =
     \<lparr>a_artist_id = artist_id c, a_artist_name = artist_name c,
      a_artist_location = artist_location c,
      a_artist_latitude = artist_latitude c,
      a_artist_longitude = artist_longitude c\<rparr>"

definition songs_table :: "catalog_record option list \<Rightarrow> error + song_row option list" where
  "songs_table df =
     spark_sql_distinct_on (map_option song_id) (map_option song_columns) (Inr df)"

definition artists_table :: "catalog_record option list \<Rightarrow> error + artist_row option list" where
  "artists_table df =
     spark_sql_distinct_on (map_option artist_id) (map_option artist_columns) (Inr df)"

section \<open>process\_log\_data: the filter and the users table\<close>

text \<open>
  \<open>df = df[df["page"]=="NextSong"]\<close>; every table of process\_log\_data is
  built from the filtered data frame. A row of nulls has a null page, and
  null compared with 'NextSong' is not true: the filter keeps no such row.
\<close>

definition non_null :: "'a option list \<Rightarrow> 'a list" where
  "non_null df = concat (map (\<lambda>r. case r of None \<Rightarrow> [] | Some x \<Rightarrow> [x]) df)"

definition next_song :: "event_record list \<Rightarrow> event_record list" where
  "next_song df = filter (\<lambda>e. page e = ''NextSong'') df"

definition user_columns :: "event_record \<Rightarrow> user_row" where
  "user_columns e =
     \<lparr>u_userId = userId e, u_firstName = firstName e, u_lastName = lastName e,
      u_gender = gender e, u_level = level e\<rparr>"

definition users_table :: "event_record list \<Rightarrow> error + user_row list" where
  "users_table df = spark_sql_distinct_on userId user_columns (Inr df)"

section \<open>datetime.fromtimestamp and strftime\<close>

text \<open>
  The calendar arithmetic of Python's datetime module (the proleptic
  Gregorian calendar, days counted as ordinals from 0001-01-01 = 1), with its
  tables and its names.
\<close>

record datetime =
  dt_year :: int
  dt_month :: int
  dt_day :: int
  dt_hour :: int
  dt_minute :: int
  dt_second :: int

definition DAYS_IN_MONTH :: "int list" where
  "DAYS_IN_MONTH = [-1, 31, 28, 31, 30, 31, 30, 31, 31, 30, 31, 30, 31]"

definition DAYS_BEFORE_MONTH :: "int list" where
  "DAYS_BEFORE_MONTH = [-1, 0, 31, 59, 90, 120, 151, 181, 212, 243, 273, 304, 334]"

definition is_leap :: "int \<Rightarrow> bool" where
  "is_leap y = (y mod 4 = 0 \<and> (y mod 100 \<noteq> 0 \<or> y mod 400 = 0))"

definition days_before_year :: "int \<Rightarrow> int" where
  "days_before_year yr = (let y = yr - 1 in y * 365 + y div 4 - y div 100 + y div 400)"

definition days_before_month :: "int \<Rightarrow> int \<Rightarrow> int" where
  "days_before_month yr m =
     DAYS_BEFORE_MONTH ! nat m + (if m > 2 \<and> is_leap yr then 1 else 0)"

definition ymd2ord :: "int \<Rightarrow> int \<Rightarrow> int \<Rightarrow> int" where
  "ymd2ord yr m d = days_before_year yr + days_before_month yr m + d"

definition ord2ymd :: "int \<Rightarrow> int \<times> int \<times> int" where
  "ord2ymd ordinal =
     (let n = ordinal - 1;
          n400 = n div 146097; n = n mod 146097;
          n100 = n div 36524; n = n mod 36524;
          n4 = n div 1461; n = n mod 1461;
          n1 = n div 365; n = n mod 365;
          yr = n400 * 400 + 1 + n100 * 100 + n4 * 4 + n1
      in if n1 = 4 \<or> n100 = 4 then (yr - 1, 12, 31)
         else
           let leapyear = (n1 = 3 \<and> (n4 \<noteq> 24 \<or> n100 = 3));
               m = (n + 50) div 32;
               preceding = DAYS_BEFORE_MONTH ! nat m + (if m > 2 \<and> leapyear then 1 else 0)
           in if preceding > n
              then (yr, m - 1,
                    n - (preceding -
                         (DAYS_IN_MONTH ! nat (m - 1) +
                          (if m - 1 = 2 \<and> leapyear then 1 else 0))) + 1)
              else (yr, m, n - preceding + 1))"

text \<open>
  \<open>datetime.fromtimestamp(x/1000.0)\<close> for an integer \<open>x\<close> of milliseconds. The
  quotient has at most three decimals, so the call's rounding to microseconds
  keeps it, and the whole seconds are \<open>x div 1000\<close> (rounded down, also when
  \<open>x\<close> is negative). The call gives no time zone: the fields are those of the
  machine's local time. The zone is the parameter \<open>utcoffset\<close>, the seconds
  that local time is ahead of UTC at a given instant. A local date outside the
  years 1 to 9999 raises.
\<close>

definition fromtimestamp :: "(int \<Rightarrow> int) \<Rightarrow> int \<Rightarrow> error + datetime" where
  "fromtimestamp utcoffset x =
     (let t = x div 1000;
          loc = t + utcoffset t;
          ordinal = loc div 86400 + 719163;
          secs = loc mod 86400
      in if ordinal < 1 \<or> ordinal > 3652059 then Inl ValueError
         else
           case ord2ymd ordinal of (yr, m, d) \<Rightarrow>
             Inr \<lparr>dt_year = yr, dt_month = m, dt_day = d,
                  dt_hour = secs div 3600, dt_minute = secs mod 3600 div 60,
                  dt_second = secs mod 60\<rparr>)"

definition toordinal :: "datetime \<Rightarrow> int" where
  "toordinal dt = ymd2ord (dt_year dt) (dt_month dt) (dt_day dt)"

definition weekday_of :: "datetime \<Rightarrow> int" where
  "weekday_of dt = (toordinal dt + 6) mod 7"

definition digit :: "int \<Rightarrow> char" where
  "digit n = ''0123456789'' ! nat n"

definition pad2 :: "int \<Rightarrow> string" where
  "pad2 n = [digit (n div 10 mod 10), digit (n mod 10)]"

definition pad4 :: "int \<Rightarrow> string" where
  "pad4 n = [digit (n div 1000 mod 10), digit (n div 100 mod 10),
             digit (n div 10 mod 10), digit (n mod 10)]"

text \<open>\<open>strftime("%Y-%m-%d %H:%M:%S")\<close>, \<open>strftime('%W')\<close> and \<open>strftime('%A')\<close>.\<close>

definition strftime_Ymd_HMS :: "datetime \<Rightarrow> string" where
  "strftime_Ymd_HMS dt =
     pad4 (dt_year dt) @ ''-'' @ pad2 (dt_month dt) @ ''-'' @ pad2 (dt_day dt) @ '' '' @
     pad2 (dt_hour dt) @ '':'' @ pad2 (dt_minute dt) @ '':'' @ pad2 (dt_second dt)"

definition strftime_W :: "datetime \<Rightarrow> string" where
  "strftime_W dt =
     (let yday = toordinal dt - ymd2ord (dt_year dt) 1 1
      in pad2 ((yday + 7 - weekday_of dt) div 7))"

definition day_names :: "string list" where
  "day_names = [''Monday'', ''Tuesday'', ''Wednesday'', ''Thursday'', ''Friday'',
                ''Saturday'', ''Sunday'']"

definition strftime_A :: "datetime \<Rightarrow> string" where
  "strftime_A dt = day_names ! nat (weekday_of dt)"

section \<open>process\_log\_data: the time columns and the time table\<close>

text \<open>
  The udfs of etl.py, one per column. Each calls \<open>fromtimestamp\<close> on its own,
  and raises when that call does.
\<close>

definition get_timestamp :: "int \<Rightarrow> int" where
  "get_timestamp x = (if x \<ge> 0 then x div 1000 else - ((- x) div 1000))"

definition get_datetime :: "(int \<Rightarrow> int) \<Rightarrow> int \<Rightarrow> error + string" where
  "get_datetime tz x = map_sum id strftime_Ymd_HMS (fromtimestamp tz x)"

definition get_hour :: "(int \<Rightarrow> int) \<Rightarrow> int \<Rightarrow> error + int" where
  "get_hour tz x = map_sum id dt_hour (fromtimestamp tz x)"

definition get_day :: "(int \<Rightarrow> int) \<Rightarrow> int \<Rightarrow> error + int" where
  "get_day tz x = map_sum id dt_day (fromtimestamp tz x)"

definition get_week :: "(int \<Rightarrow> int) \<Rightarrow> int \<Rightarrow> error + string" where
  "get_week tz x = map_sum id strftime_W (fromtimestamp tz x)"

definition get_month :: "(int \<Rightarrow> int) \<Rightarrow> int \<Rightarrow> error + int" where
  "get_month tz x = map_sum id dt_month (fromtimestamp tz x)"

definition get_year :: "(int \<Rightarrow> int) \<Rightarrow> int \<Rightarrow> error + int" where
  "get_year tz x = map_sum id dt_year (fromtimestamp tz x)"

definition get_weekday :: "(int \<Rightarrow> int) \<Rightarrow> int \<Rightarrow> error + string" where
  "get_weekday tz x = map_sum id strftime_A (fromtimestamp tz x)"

text \<open>The data frame after the \<open>withColumn\<close> calls: the event and its new columns.\<close>

record play_row =
  ev :: event_record
  timestamp :: int
  start_time :: string
  hour :: int
  day :: int
  week :: string
  month :: int
  year :: int
  weekday :: string

definition bind_err :: "error + 'a \<Rightarrow> ('a \<Rightarrow> error + 'b) \<Rightarrow> error + 'b" where
  "bind_err r f = (case r of Inl e \<Rightarrow> Inl e | Inr v \<Rightarrow> f v)"

definition with_time_columns :: "(int \<Rightarrow> int) \<Rightarrow> event_record \<Rightarrow> error + play_row" where
  "with_time_columns tz e =
     bind_err (get_datetime tz (ts e)) (\<lambda>st.
     bind_err (get_hour tz (ts e)) (\<lambda>h.
     bind_err (get_day tz (ts e)) (\<lambda>d.
     bind_err (get_week tz (ts e)) (\<lambda>w.
     bind_err (get_month tz (ts e)) (\<lambda>m.
     bind_err (get_year tz (ts e)) (\<lambda>y.
     bind_err (get_weekday tz (ts e)) (\<lambda>wd.
       Inr \<lparr>ev = e, timestamp = get_timestamp (ts e), start_time = st, hour = h,
            day = d, week = w, month = m, year = y, weekday = wd\<rparr>)))))))"

text \<open>A query that reads the new columns runs the udfs on every row; the first raise fails the job.\<close>

fun all_rows :: "('a \<Rightarrow> error + 'b) \<Rightarrow> 'a list \<Rightarrow> error + 'b list" where
  "all_rows f [] = Inr []"
| "all_rows f (x # xs) =
     (case f x of
        Inl e \<Rightarrow> Inl e
      | Inr y \<Rightarrow> (case all_rows f xs of Inl e \<Rightarrow> Inl e | Inr ys \<Rightarrow> Inr (y # ys)))"

record time_row =
  t_start_time :: string
  t_hour :: int
  t_day :: int
  t_week :: string
  t_month :: int
  t_year :: int
  t_weekday :: string

definition time_columns :: "play_row \<Rightarrow> time_row" where
  "time_columns r =
     \<lparr>t_start_time = start_time r, t_hour = hour r, t_day = day r, t_week = week r,
      t_month = month r, t_year = year r, t_weekday = weekday r\<rparr>"

text \<open>
  The time query is analysed, and raises, before any udf has run: the rows
  with their new columns are the view it would read.
\<close>

definition time_table :: "(int \<Rightarrow> int) \<Rightarrow> event_record list \<Rightarrow> error + time_row list" where
  "time_table tz df =
     spark_sql_distinct_on start_time time_columns (all_rows (with_time_columns tz) df)"

section \<open>process\_log\_data: the songplays table\<close>

text \<open>
  \<open>monotonically_increasing_id()\<close> numbers the rows of the data frame it is
  added to: increasing and unique, but not consecutive. The engine's jumps are
  the parameter \<open>gap\<close>: row \<open>i\<close> gets the id of row \<open>i - 1\<close> plus \<open>1 + gap i\<close>.
\<close>

fun monotonically_increasing_id :: "(nat \<Rightarrow> nat) \<Rightarrow> nat \<Rightarrow> nat" where
  "monotonically_increasing_id gap 0 = gap 0"
| "monotonically_increasing_id gap (Suc i) =
     monotonically_increasing_id gap i + 1 + gap (Suc i)"

record id_row =
  sp :: play_row
  songplay_id :: nat

definition with_songplay_id :: "(nat \<Rightarrow> nat) \<Rightarrow> play_row list \<Rightarrow> id_row list" where
  "with_songplay_id gap rows =
     map (\<lambda>(i, r). \<lparr>sp = r, songplay_id = monotonically_increasing_id gap i\<rparr>)
       (enumerate 0 rows)"

text \<open>SQL's \<open>=\<close> in a join condition: a null on either side never matches.\<close>

definition sql_eq :: "'a option \<Rightarrow> 'a option \<Rightarrow> bool" where
  "sql_eq a b = (case a of None \<Rightarrow> False | Some x \<Rightarrow> (case b of None \<Rightarrow> False | Some y \<Rightarrow> x = y))"

definition join_on :: "event_record \<Rightarrow> catalog_record \<Rightarrow> bool" where
  "join_on e s =
     (sql_eq (artist e) (artist_name s) \<and> sql_eq (song e) (title s) \<and>
      sql_eq (length_col e) (duration s))"

record songplay_row =
  sp_songplay_id :: nat
  sp_start_time :: string
  sp_user_id :: string
  sp_level :: string
  sp_song_id :: string
  sp_artist_id :: string
  sp_session_id :: int
  sp_location :: string
  sp_user_agent :: string
  sp_year :: int
  sp_month :: int

definition songplay_columns :: "id_row \<Rightarrow> catalog_record \<Rightarrow> songplay_row" where
  "songplay_columns r s =
     \<lparr>sp_songplay_id = songplay_id r, sp_start_time = start_time (sp r),
      sp_user_id = userId (ev (sp r)), sp_level = level (ev (sp r)),
      sp_song_id = song_id s, sp_artist_id = artist_id s,
      sp_session_id = sessionId (ev (sp r)), sp_location = location (ev (sp r)),
      sp_user_agent = userAgent (ev (sp r)), sp_year = year (sp r),
      sp_month = month (sp r)\<rparr>"

text \<open>
  The inner join: a row of songplays\_table gives one output row for each row
  of songs\_table that satisfies the condition, and none when there is no such
  row. \<open>songplays_join\<close> lists the joined rows play by play.
\<close>

definition join_rows :: "id_row \<Rightarrow> catalog_record list \<Rightarrow> songplay_row list" where
  "join_rows r song_df = map (songplay_columns r) (filter (join_on (ev (sp r))) song_df)"

definition songplays_join :: "id_row list \<Rightarrow> catalog_record list \<Rightarrow> songplay_row list" where
  "songplays_join rows song_df = concat (map (\<lambda>r. join_rows r song_df) rows)"

text \<open>
  The query has no \<open>order by\<close>: the engine emits the joined rows in an order of
  its choosing. The choice is the parameter \<open>perm\<close>: for a result of \<open>n\<close> rows it
  names a rearrangement of the positions \<open>0, ..., n - 1\<close>; an answer that is no
  rearrangement leaves the rows as they are listed.
\<close>

definition emit_order :: "(nat \<Rightarrow> nat list) \<Rightarrow> 'a list \<Rightarrow> 'a list" where
  "emit_order perm rows =
     (let p = perm (length rows)
      in if sort p = [0..<length rows] then map (\<lambda>i. rows ! i) p else rows)"

definition songplays_table ::
  "(nat \<Rightarrow> nat list) \<Rightarrow> (nat \<Rightarrow> nat) \<Rightarrow> (int \<Rightarrow> int) \<Rightarrow> event_record list \<Rightarrow>
     catalog_record list \<Rightarrow> error + songplay_row list" where
  "songplays_table perm gap tz df song_df =
     map_sum id (\<lambda>rows. emit_order perm (songplays_join (with_songplay_id gap rows) song_df))
       (all_rows (with_time_columns tz) df)"

section \<open>Reading the inputs, writing the tables, main\<close>

text \<open>
  \<open>spark.read.json\<close> over the files that glob lists. A file is a list of
  records, \<open>None\<close> for a record that is not well-formed JSON. The session is
  built with no option that lets a read pass over a file it cannot read, and
  etl.py catches no exception: the first such file fails the read. The read
  runs in the default (permissive) mode: a record that does not parse stays in
  the data frame, as a row of nulls.
\<close>

datatype 'a json_file = Unreadable | Json "'a option list"

fun records :: "'a json_file \<Rightarrow> 'a option list" where
  "records Unreadable = []"
| "records (Json rows) = rows"

fun spark_read_json :: "'a json_file list \<Rightarrow> error + 'a option list" where
  "spark_read_json [] = Inr []"
| "spark_read_json (Unreadable # fs) = Inl ReadError"
| "spark_read_json (Json rows # fs) =
     (case spark_read_json fs of Inl e \<Rightarrow> Inl e | Inr rest \<Rightarrow> Inr (rows @ rest))"

text \<open>The output location: each table is absent until \<open>to_parquet\<close> has written it.\<close>

record output_data =
  songs_parquet :: "song_row option list option"
  artists_parquet :: "artist_row option list option"
  users_parquet :: "user_row list option"
  time_parquet :: "time_row list option"
  songplays_parquet :: "songplay_row list option"

definition empty_output :: output_data where
  "empty_output = \<lparr>songs_parquet = None, artists_parquet = None, users_parquet = None,
                   time_parquet = None, songplays_parquet = None\<rparr>"

text \<open>The choices the engine makes in one run.\<close>

record engine =
  emit :: "nat \<Rightarrow> nat list"
  id_gap :: "nat \<Rightarrow> nat"
  utcoffset :: "int \<Rightarrow> int"

text \<open>
  A function of etl.py returns nothing; what a call leaves behind is the
  output location and, when it raised, the exception.
\<close>

definition process_song_data ::
  "engine \<Rightarrow> catalog_record json_file list \<Rightarrow> output_data \<Rightarrow> output_data \<times> error option" where
  "process_song_data eng song_data out =
     (case spark_read_json song_data of
        Inl e \<Rightarrow> (out, Some e)
      | Inr df \<Rightarrow>
          (case songs_table df of
             Inl e \<Rightarrow> (out, Some e)
           | Inr songs \<Rightarrow>
               let out = out\<lparr>songs_parquet := Some songs\<rparr>
               in case artists_table df of
                    Inl e \<Rightarrow> (out, Some e)
                  | Inr artists \<Rightarrow> (out\<lparr>artists_parquet := Some artists\<rparr>, None)))"

text \<open>
  In the join a row of nulls of the catalog matches no play (null equals
  nothing), so the join reads the other rows only.
\<close>

definition process_log_data ::
  "engine \<Rightarrow> event_record json_file list \<Rightarrow> catalog_record json_file list \<Rightarrow> output_data \<Rightarrow>
     output_data \<times> error option" where
  "process_log_data eng log_data song_data out =
     (case spark_read_json log_data of
        Inl e \<Rightarrow> (out, Some e)
      | Inr df \<Rightarrow>
          let df = next_song (non_null df)
          in case users_table df of
               Inl e \<Rightarrow> (out, Some e)
             | Inr users \<Rightarrow>
                 let out = out\<lparr>users_parquet := Some users\<rparr>
                 in case time_table (utcoffset eng) df of
                      Inl e \<Rightarrow> (out, Some e)
                    | Inr tt \<Rightarrow>
                        let out = out\<lparr>time_parquet := Some tt\<rparr>
                        in case spark_read_json song_data of
                             Inl e \<Rightarrow> (out, Some e)
                           | Inr song_df \<Rightarrow>
                               (case songplays_table (emit eng) (id_gap eng) (utcoffset eng) df
                                       (non_null song_df) of
                                  Inl e \<Rightarrow> (out, Some e)
                                | Inr st \<Rightarrow> (out\<lparr>songplays_parquet := Some st\<rparr>, None)))"

definition main ::
  "engine \<Rightarrow> catalog_record json_file list \<Rightarrow> event_record json_file list \<Rightarrow>
     output_data \<times> error option" where
  "main eng song_data log_data =
     (case process_song_data eng song_data empty_output of
        (out, Some e) \<Rightarrow> (out, Some e)
      | (out, None) \<Rightarrow> process_log_data eng log_data song_data out)"

section \<open>Example inputs\<close>

text \<open>One catalog record and one play of it, and the choices of a simple engine.\<close>

definition example_song :: catalog_record where
  "example_song =
     \<lparr>song_id = ''S1'', title = Some ''Foo'', artist_id = ''A1'',
      artist_name = Some ''Artist'', artist_location = [], artist_latitude = None,
      artist_longitude = None, song_year = 2000, duration = Some 210.5\<rparr>"

definition example_event :: event_record where
  "example_event =
     \<lparr>ts = 1541121934796, page = ''NextSong'', userId = ''10'', firstName = ''A'',
      lastName = ''B'', gender = ''F'', level = ''free'', song = Some ''Foo'',
      artist = Some ''Artist'', length_col = Some 210.5, sessionId = 139,
      location = [], userAgent = []\<rparr>"

definition play_order :: "nat \<Rightarrow> nat list" where
  "play_order n = [0..<n]"

definition reverse_order :: "nat \<Rightarrow> nat list" where
  "reverse_order n = rev [0..<n]"

definition no_gap :: "nat \<Rightarrow> nat" where
  "no_gap i = 0"

definition utc :: "int \<Rightarrow> int" where
  "utc t = 0"

definition utc_plus_1 :: "int \<Rightarrow> int" where
  "utc_plus_1 t = 3600"

definition example_engine :: engine where
  "example_engine = \<lparr>emit = play_order, id_gap = no_gap, utcoffset = utc\<rparr>"

text \<open>
  A second catalog record with the title, artist name and duration of the
  first, and a play whose length is off by a tenth of a second.
\<close>

definition other_song :: catalog_record where
  "other_song = example_song\<lparr>song_id := ''S2''\<rparr>"

definition off_event :: event_record where
  "off_event = example_event\<lparr>length_col := Some 210.6\<rparr>"

text \<open>
  A catalog record with the song\_id of the first and another title; a play
  203 milliseconds after the first, within the same second.
\<close>

definition renamed_song :: catalog_record where
  "renamed_song = example_song\<lparr>title := Some ''Bar''\<rparr>"

definition late_event :: event_record where
  "late_event = example_event\<lparr>ts := 1541121934999\<rparr>"

section \<open>Recombining the date and the hour\<close>

text \<open>
  Not a function of etl.py: the recombination that the specification's
  round-trip property speaks of. The clock seconds since 1970-01-01 00:00:00
  at which hour \<open>h\<close> of the day \<open>yr\<close>-\<open>m\<close>-\<open>d\<close> starts, on the clock that
  produced the fields.
\<close>

definition recombine :: "int \<Rightarrow> int \<Rightarrow> int \<Rightarrow> int \<Rightarrow> int" where
  "recombine yr m d h = (ymd2ord yr m d - 719163) * 86400 + h * 3600"

section \<open>The time columns\<close>

lemma fromtimestamp_cases:
  obtains (raise) "fromtimestamp tz x = Inl ValueError"
  | (ok) dt where "fromtimestamp tz x = Inr dt"
  by (cases "fromtimestamp tz x") (auto simp: fromtimestamp_def Let_def split: if_splits prod.splits)

lemma with_time_columns_Inl:
  "fromtimestamp tz (ts e) = Inl err \<Longrightarrow> with_time_columns tz e = Inl err"
  by (simp add: with_time_columns_def bind_err_def get_datetime_def)

lemma with_time_columns_Inr:
  "fromtimestamp tz (ts e) = Inr dt \<Longrightarrow>
   with_time_columns tz e =
     Inr \<lparr>ev = e, timestamp = get_timestamp (ts e), start_time = strftime_Ymd_HMS dt,
          hour = dt_hour dt, day = dt_day dt, week = strftime_W dt, month = dt_month dt,
          year = dt_year dt, weekday = strftime_A dt\<rparr>"
  by (simp add: with_time_columns_def bind_err_def get_datetime_def get_hour_def get_day_def
      get_week_def get_month_def get_year_def get_weekday_def)

lemma with_time_columns_ev: "with_time_columns tz e = Inr r \<Longrightarrow> ev r = e"
  by (cases "fromtimestamp tz (ts e)")
     (auto simp: with_time_columns_Inl with_time_columns_Inr)

lemma with_time_columns_start_time:
  "with_time_columns tz e = Inr r \<Longrightarrow> get_datetime tz (ts e) = Inr (start_time r)"
  by (cases "fromtimestamp tz (ts e)")
     (auto simp: with_time_columns_Inl with_time_columns_Inr get_datetime_def)

lemma all_rows_Inr: "all_rows f xs = Inr ys \<Longrightarrow> list_all2 (\<lambda>x y. f x = Inr y) xs ys"
  by (induction xs arbitrary: ys) (auto split: sum.splits)

lemma all_rows_Inr_iff:
  "(\<exists>ys. all_rows f xs = Inr ys) \<longleftrightarrow> (\<forall>x\<in>set xs. \<exists>y. f x = Inr y)"
  by (induction xs) (auto split: sum.splits)

lemma all_rows_ev:
  assumes "all_rows (with_time_columns tz) df = Inr rows"
  shows "map ev rows = df"
proof -
  have "list_all2 (\<lambda>x y. with_time_columns tz x = Inr y) df rows"
    using assms by (rule all_rows_Inr)
  then have "list_all2 (\<lambda>x y. ev y = x) df rows"
    by (rule list_all2_mono) (rule with_time_columns_ev)
  then show ?thesis
    by (induction rule: list_all2_induct) auto
qed

section \<open>The order of emission\<close>

lemma emit_order_mset: "mset (emit_order perm xs) = mset xs"
proof (cases "sort (perm (length xs)) = [0..<length xs]")
  case True
  then have "mset (perm (length xs)) = mset [0..<length xs]"
    by (metis mset_sort)
  then have "mset (map (\<lambda>i. xs ! i) (perm (length xs))) = mset (map (\<lambda>i. xs ! i) [0..<length xs])"
    by (simp only: mset_map)
  also have "map (\<lambda>i. xs ! i) [0..<length xs] = xs"
    by (rule map_nth)
  finally show ?thesis
    using True by (simp add: emit_order_def)
next
  case False
  then show ?thesis by (simp add: emit_order_def)
qed

lemma emit_order_set: "set (emit_order perm xs) = set xs"
  using emit_order_mset by (rule mset_eq_setD)

lemma emit_order_length: "length (emit_order perm xs) = length xs"
  using emit_order_mset by (rule mset_eq_length)

lemma emit_order_map: "map f (emit_order perm xs) = emit_order perm (map f xs)"
proof (cases "sort (perm (length xs)) = [0..<length xs]")
  case True
  then have "set (perm (length xs)) = set [0..<length xs]"
    by (metis set_sort)
  then have "\<forall>i\<in>set (perm (length xs)). i < length xs"
    by simp
  then show ?thesis
    using True by (simp add: emit_order_def)
next
  case False
  then show ?thesis by (simp add: emit_order_def)
qed

lemma emit_order_play_order: "emit_order play_order xs = xs"
  by (simp add: emit_order_def play_order_def sorted_sort_id map_nth)

lemma emit_order_distinct: "distinct (emit_order perm xs) \<longleftrightarrow> distinct xs"
  using emit_order_mset by (rule mset_eq_imp_distinct_iff)

section \<open>The ids and the join\<close>

lemma monotonically_increasing_id_Suc:
  "monotonically_increasing_id gap i < monotonically_increasing_id gap (Suc i)"
  by simp

lemma monotonically_increasing_id_strict_mono:
  "strict_mono (monotonically_increasing_id gap)"
  by (rule strict_mono_Suc_iff [THEN iffD2]) (simp add: monotonically_increasing_id_Suc)

lemma monotonically_increasing_id_less:
  "i < j \<Longrightarrow> monotonically_increasing_id gap i < monotonically_increasing_id gap j"
  using monotonically_increasing_id_strict_mono by (rule strict_monoD)

lemma monotonically_increasing_id_inj:
  "monotonically_increasing_id gap i = monotonically_increasing_id gap j \<longleftrightarrow> i = j"
  using monotonically_increasing_id_strict_mono by (rule strict_mono_eq)

lemma with_songplay_id_length [simp]: "length (with_songplay_id gap rows) = length rows"
  by (simp add: with_songplay_id_def)

lemma join_rows_ids:
  "map sp_songplay_id (join_rows r song_df)
     = replicate (length (filter (join_on (ev (sp r))) song_df)) (songplay_id r)"
  by (simp add: join_rows_def songplay_columns_def map_replicate_const comp_def)

lemma join_rows_length:
  "length (join_rows r song_df) = length (filter (join_on (ev (sp r))) song_df)"
  by (simp add: join_rows_def)

text \<open>
  The ids of the joined rows as \<open>songplays_join\<close> lists them, with \<open>k e\<close> the
  number of catalog rows that event \<open>e\<close> matches: the id of row \<open>i\<close>, \<open>k\<close> times,
  for each \<open>i\<close> in turn.
\<close>

lemma songplays_join_ids_from:
  "map sp_songplay_id
     (concat (map (\<lambda>r. join_rows r song_df)
        (map (\<lambda>(i, r). \<lparr>sp = r, songplay_id = monotonically_increasing_id gap i\<rparr>)
           (enumerate n rows))))
   = concat (map (\<lambda>(i, r). replicate (length (filter (join_on (ev r)) song_df))
                              (monotonically_increasing_id gap i))
               (enumerate n rows))"
  by (induction rows arbitrary: n) (simp_all add: join_rows_ids)

lemma songplays_join_ids:
  "map sp_songplay_id (songplays_join (with_songplay_id gap rows) song_df)
   = concat (map (\<lambda>(i, r). replicate (length (filter (join_on (ev r)) song_df))
                              (monotonically_increasing_id gap i))
               (enumerate 0 rows))"
  unfolding songplays_join_def with_songplay_id_def by (rule songplays_join_ids_from)

lemma ids_strictly_sorted_from:
  assumes "\<forall>r\<in>set rows. k r \<le> (1::nat)"
  shows "sorted_wrt (<) (concat (map (\<lambda>(i, r). replicate (k r) (monotonically_increasing_id gap i))
                    (enumerate n rows)))"
  using assms
proof (induction rows arbitrary: n)
  case Nil
  show ?case by simp
next
  case (Cons r rows)
  have gt: "monotonically_increasing_id gap n < y"
    if "y \<in> set (concat (map (\<lambda>(i, r). replicate (k r) (monotonically_increasing_id gap i))
                    (enumerate (Suc n) rows)))" for y
  proof -
    from that obtain i r' where "(i, r') \<in> set (enumerate (Suc n) rows)"
      and "y = monotonically_increasing_id gap i"
      by auto
    then have "n < i" by (auto simp: in_set_enumerate_eq)
    then show ?thesis
      using \<open>y = _\<close> monotonically_increasing_id_less [of n i gap] by simp
  qed
  from Cons.prems have "k r = 0 \<or> k r = 1" by auto
  moreover from Cons have "sorted_wrt (<)
      (concat (map (\<lambda>(i, r). replicate (k r) (monotonically_increasing_id gap i))
                    (enumerate (Suc n) rows)))"
    by simp
  ultimately show ?case
    using gt by (auto simp: sorted_wrt_append)
qed

lemma songplays_table_Inr:
  assumes "songplays_table perm gap tz df song_df = Inr out"
  obtains rows where "all_rows (with_time_columns tz) df = Inr rows"
    and "out = emit_order perm (songplays_join (with_songplay_id gap rows) song_df)"
    and "map ev rows = df"
proof -
  from assms obtain rows where r: "all_rows (with_time_columns tz) df = Inr rows"
    and o: "out = emit_order perm (songplays_join (with_songplay_id gap rows) song_df)"
    by (cases "all_rows (with_time_columns tz) df") (auto simp: songplays_table_def)
  from r have "map ev rows = df" by (rule all_rows_ev)
  with r o show ?thesis by (rule that)
qed

lemma songplays_table_returns:
  "(\<exists>out. songplays_table perm gap tz df song_df = Inr out) \<longleftrightarrow>
   (\<forall>e\<in>set df. \<exists>dt. fromtimestamp tz (ts e) = Inr dt)"
proof -
  have "(\<exists>r. with_time_columns tz e = Inr r) \<longleftrightarrow> (\<exists>dt. fromtimestamp tz (ts e) = Inr dt)" for e
    by (cases "fromtimestamp tz (ts e)")
       (simp_all add: with_time_columns_Inl with_time_columns_Inr)
  then have "(\<exists>rows. all_rows (with_time_columns tz) df = Inr rows) \<longleftrightarrow>
      (\<forall>e\<in>set df. \<exists>dt. fromtimestamp tz (ts e) = Inr dt)"
    by (simp add: all_rows_Inr_iff)
  moreover have "(\<exists>out. songplays_table perm gap tz df song_df = Inr out) \<longleftrightarrow>
      (\<exists>rows. all_rows (with_time_columns tz) df = Inr rows)"
    by (cases "all_rows (with_time_columns tz) df") (simp_all add: songplays_table_def)
  ultimately show ?thesis by simp
qed

lemma enumerate_map_ev:
  "map (\<lambda>(i, r). F i (ev r)) (enumerate 0 rows)
     = map (\<lambda>i. F i (map ev rows ! i)) [0..<length rows]"
  by (rule nth_equalityI) (simp_all add: nth_enumerate_eq)

lemma listed_ids:
  assumes e: "map ev rows = df"
  shows "map sp_songplay_id (songplays_join (with_songplay_id gap rows) song_df)
    = concat (map (\<lambda>i. replicate (length (filter (join_on (df ! i)) song_df))
                          (monotonically_increasing_id gap i)) [0..<length df])"
proof -
  have l: "length rows = length df"
    using e by (metis length_map)
  have "map sp_songplay_id (songplays_join (with_songplay_id gap rows) song_df)
      = concat (map (\<lambda>(i, r). (\<lambda>i e. replicate (length (filter (join_on e) song_df))
                              (monotonically_increasing_id gap i)) i (ev r))
               (enumerate 0 rows))"
    by (simp add: songplays_join_ids)
  also have "\<dots> = concat (map (\<lambda>i. replicate (length (filter (join_on (map ev rows ! i)) song_df))
                          (monotonically_increasing_id gap i)) [0..<length rows])"
    using enumerate_map_ev [of "\<lambda>i e. replicate (length (filter (join_on e) song_df))
                              (monotonically_increasing_id gap i)" rows]
    by simp
  finally show ?thesis
    by (simp only: e l)
qed

lemma listed_ids_enumerate:
  assumes "map ev rows = df"
  shows "map sp_songplay_id (songplays_join (with_songplay_id gap rows) song_df)
    = concat (map (\<lambda>(i, e). replicate (length (filter (join_on e) song_df))
                          (monotonically_increasing_id gap i)) (enumerate 0 df))"
proof -
  have "map (\<lambda>(i, e). replicate (length (filter (join_on e) song_df))
                          (monotonically_increasing_id gap i)) (enumerate 0 df)
      = map (\<lambda>i. replicate (length (filter (join_on (df ! i)) song_df))
                          (monotonically_increasing_id gap i)) [0..<length df]"
    by (rule nth_equalityI) (simp_all add: nth_enumerate_eq)
  then show ?thesis
    using listed_ids [OF assms] by simp
qed

lemma listed_length:
  assumes e: "map ev rows = df"
  shows "length (songplays_join (with_songplay_id gap rows) song_df)
    = sum_list (map (\<lambda>e. length (filter (join_on e) song_df)) df)"
proof -
  have "length (concat (map (\<lambda>r. join_rows r song_df)
           (map (\<lambda>(i, r). \<lparr>sp = r, songplay_id = monotonically_increasing_id gap i\<rparr>)
              (enumerate n rows))))
        = sum_list (map (\<lambda>e. length (filter (join_on e) song_df)) (map ev rows))" for n
    by (induction rows arbitrary: n) (simp_all add: join_rows_length)
  then show ?thesis
    unfolding songplays_join_def with_songplay_id_def e by simp
qed

lemma songplays_table_ids:
  assumes "songplays_table perm gap tz df song_df = Inr out"
  shows "map sp_songplay_id out
    = emit_order perm
        (concat (map (\<lambda>i. replicate (length (filter (join_on (df ! i)) song_df))
                          (monotonically_increasing_id gap i)) [0..<length df]))"
proof -
  from assms obtain rows
    where o: "out = emit_order perm (songplays_join (with_songplay_id gap rows) song_df)"
    and e: "map ev rows = df"
    by (rule songplays_table_Inr)
  show ?thesis
    unfolding o emit_order_map listed_ids [OF e] by (rule refl)
qed

lemma songplays_table_length:
  assumes "songplays_table perm gap tz df song_df = Inr out"
  shows "length out = sum_list (map (\<lambda>e. length (filter (join_on e) song_df)) df)"
proof -
  from assms obtain rows
    where o: "out = emit_order perm (songplays_join (with_songplay_id gap rows) song_df)"
    and e: "map ev rows = df"
    by (rule songplays_table_Inr)
  show ?thesis
    unfolding o emit_order_length by (rule listed_length [OF e])
qed

lemma sum_list_at_most_one:
  "\<forall>x\<in>set xs. f x \<le> (1::nat) \<Longrightarrow>
   sum_list (map f xs) \<le> length xs \<and>
   (sum_list (map f xs) = length xs \<longleftrightarrow> (\<forall>x\<in>set xs. f x = 1))"
proof (induction xs)
  case Nil
  show ?case by simp
next
  case (Cons x xs)
  then have "f x = 0 \<or> f x = 1" by auto
  with Cons show ?case by auto
qed

text \<open>
  C1, as amended. The songplay\_id values of the songplays table contain no
  duplicates whenever no play matches more than one catalog row. The join
  names no order, so the ids need not increase along the emitted rows; they
  are strictly increasing when the engine emits the rows in the order of the
  plays.
\<close>

theorem songplay_ids_distinct:
  assumes "songplays_table perm gap tz (next_song df) song_df = Inr out"
    and "\<forall>e\<in>set (next_song df). length (filter (join_on e) song_df) \<le> 1"
  shows "distinct (map sp_songplay_id out) \<and>
    (perm = play_order \<longrightarrow> sorted_wrt (<) (map sp_songplay_id out))"
proof -
  from assms(1) obtain rows
    where o: "out = emit_order perm (songplays_join (with_songplay_id gap rows) song_df)"
    and e: "map ev rows = next_song df"
    by (rule songplays_table_Inr)
  have s: "sorted_wrt (<)
      (map sp_songplay_id (songplays_join (with_songplay_id gap rows) song_df))"
    unfolding listed_ids_enumerate [OF e] using assms(2) by (rule ids_strictly_sorted_from)
  then have "distinct (map sp_songplay_id (songplays_join (with_songplay_id gap rows) song_df))"
    by (simp add: strict_sorted_iff)
  then have "distinct (map sp_songplay_id out)"
    unfolding o emit_order_map by (simp only: emit_order_distinct)
  moreover have "sorted_wrt (<) (map sp_songplay_id out)" if "perm = play_order"
    unfolding o that emit_order_play_order by (rule s)
  ultimately show ?thesis by simp
qed

theorem songplay_ids_distinct_witness:
  "songplays_table play_order no_gap utc (next_song [example_event, off_event, example_event])
     [example_song]
     = Inr [\<lparr>sp_songplay_id = 0, sp_start_time = ''2018-11-02 01:25:34'',
              sp_user_id = ''10'', sp_level = ''free'', sp_song_id = ''S1'',
              sp_artist_id = ''A1'', sp_session_id = 139, sp_location = [],
              sp_user_agent = [], sp_year = 2018, sp_month = 11\<rparr>,
            \<lparr>sp_songplay_id = 2, sp_start_time = ''2018-11-02 01:25:34'',
              sp_user_id = ''10'', sp_level = ''free'', sp_song_id = ''S1'',
              sp_artist_id = ''A1'', sp_session_id = 139, sp_location = [],
              sp_user_agent = [], sp_year = 2018, sp_month = 11\<rparr>] \<and>
   map (\<lambda>e. length (filter (join_on e) [example_song]))
     (next_song [example_event, off_event, example_event]) = [1, 0, 1] \<and>
   distinct [0, 2 :: nat] \<and> sorted_wrt (<) [0, 2 :: nat]"
proof -
  have h: "songplays_table play_order no_gap utc
      (next_song [example_event, off_event, example_event]) [example_song]
     = Inr [\<lparr>sp_songplay_id = 0, sp_start_time = ''2018-11-02 01:25:34'',
              sp_user_id = ''10'', sp_level = ''free'', sp_song_id = ''S1'',
              sp_artist_id = ''A1'', sp_session_id = 139, sp_location = [],
              sp_user_agent = [], sp_year = 2018, sp_month = 11\<rparr>,
            \<lparr>sp_songplay_id = 2, sp_start_time = ''2018-11-02 01:25:34'',
              sp_user_id = ''10'', sp_level = ''free'', sp_song_id = ''S1'',
              sp_artist_id = ''A1'', sp_session_id = 139, sp_location = [],
              sp_user_agent = [], sp_year = 2018, sp_month = 11\<rparr>]"
    by code_simp
  have k: "\<forall>e\<in>set (next_song [example_event, off_event, example_event]).
       length (filter (join_on e) [example_song]) \<le> 1"
    by simp
  have m: "map (\<lambda>e. length (filter (join_on e) [example_song]))
     (next_song [example_event, off_event, example_event]) = [1, 0, 1]"
    by code_simp
  show ?thesis
    using songplay_ids_distinct [OF h k] h m by simp
qed

theorem songplay_ids_counterexample:
  "map_sum id (map sp_songplay_id)
     (songplays_table play_order no_gap utc (next_song [example_event])
        [example_song, other_song])
     = Inr [0, 0] \<and>
   \<not> distinct [0, 0 :: nat] \<and>
   map_sum id (map sp_songplay_id)
     (songplays_table reverse_order no_gap utc (next_song [example_event, example_event])
        [example_song])
     = Inr [1, 0] \<and>
   \<not> sorted_wrt (<) [1, 0 :: nat]"
proof -
  have "map_sum id (map sp_songplay_id)
     (songplays_table play_order no_gap utc (next_song [example_event])
        [example_song, other_song])
     = Inr [0, 0]"
    by code_simp
  moreover have "map_sum id (map sp_songplay_id)
     (songplays_table reverse_order no_gap utc (next_song [example_event, example_event])
        [example_song])
     = Inr [1, 0]"
    by code_simp
  ultimately show ?thesis by simp
qed

text \<open>
  C2, as amended. When no play (event with page = NextSong) matches more than
  one catalog row, the songplays table has at most as many rows as there are
  plays, with equality exactly when every play's (artist, song, length)
  matches some catalog row.
\<close>

theorem songplays_row_count:
  assumes "songplays_table perm gap tz (next_song df) song_df = Inr out"
    and "\<forall>e\<in>set (next_song df). length (filter (join_on e) song_df) \<le> 1"
  shows "length out \<le> length (next_song df) \<and>
    (length out = length (next_song df) \<longleftrightarrow>
       (\<forall>e\<in>set (next_song df). \<exists>s\<in>set song_df. join_on e s))"
proof -
  have len: "length out
      = sum_list (map (\<lambda>e. length (filter (join_on e) song_df)) (next_song df))"
    using assms(1) by (rule songplays_table_length)
  have one: "length (filter (join_on e) song_df) = 1 \<longleftrightarrow> (\<exists>s\<in>set song_df. join_on e s)"
    if "e \<in> set (next_song df)" for e
  proof -
    have "length (filter (join_on e) song_df) \<le> 1"
      using assms(2) that by blast
    moreover have "length (filter (join_on e) song_df) = 0 \<longleftrightarrow> \<not> (\<exists>s\<in>set song_df. join_on e s)"
      by (simp add: filter_empty_conv)
    ultimately show ?thesis by arith
  qed
  from sum_list_at_most_one [OF assms(2)] len
  have "length out \<le> length (next_song df)"
    and "length out = length (next_song df) \<longleftrightarrow>
      (\<forall>e\<in>set (next_song df). length (filter (join_on e) song_df) = 1)"
    by simp_all
  with one show ?thesis by simp
qed

theorem songplays_row_count_witness:
  "songplays_table play_order no_gap utc (next_song [example_event, off_event]) [example_song]
     = Inr [\<lparr>sp_songplay_id = 0, sp_start_time = ''2018-11-02 01:25:34'',
              sp_user_id = ''10'', sp_level = ''free'', sp_song_id = ''S1'',
              sp_artist_id = ''A1'', sp_session_id = 139, sp_location = [],
              sp_user_agent = [], sp_year = 2018, sp_month = 11\<rparr>] \<and>
   map (\<lambda>e. length (filter (join_on e) [example_song]))
     (next_song [example_event, off_event]) = [1, 0] \<and>
   (1::nat) \<le> length (next_song [example_event, off_event]) \<and>
   \<not> (\<forall>e\<in>set (next_song [example_event, off_event]). \<exists>s\<in>set [example_song]. join_on e s)"
proof -
  have h: "songplays_table play_order no_gap utc (next_song [example_event, off_event]) [example_song]
     = Inr [\<lparr>sp_songplay_id = 0, sp_start_time = ''2018-11-02 01:25:34'',
              sp_user_id = ''10'', sp_level = ''free'', sp_song_id = ''S1'',
              sp_artist_id = ''A1'', sp_session_id = 139, sp_location = [],
              sp_user_agent = [], sp_year = 2018, sp_month = 11\<rparr>]"
    by code_simp
  have k: "\<forall>e\<in>set (next_song [example_event, off_event]).
       length (filter (join_on e) [example_song]) \<le> 1"
    by simp
  have n: "length (next_song [example_event, off_event]) = 2"
    by code_simp
  have m: "map (\<lambda>e. length (filter (join_on e) [example_song]))
     (next_song [example_event, off_event]) = [1, 0]"
    by code_simp
  show ?thesis
    using songplays_row_count [OF h k] h m n by simp
qed

theorem songplays_row_count_counterexample:
  "map_sum id length
     (songplays_table play_order no_gap utc (next_song [example_event]) [example_song, other_song])
     = Inr 2 \<and>
   length (next_song [example_event]) = 1"
  by code_simp

text \<open>
  C7. A play that no catalog row equals on all of artist name, title and
  duration (so, in particular, a play whose length differs from every catalog
  duration) has no row in the songplays table: no row carries its
  songplay\_id.
\<close>

theorem unmatched_play_dropped:
  assumes "songplays_table perm gap tz (next_song df) song_df = Inr out"
    and "i < length (next_song df)"
    and "\<forall>s\<in>set song_df. artist (next_song df ! i) \<noteq> artist_name s \<or>
           song (next_song df ! i) \<noteq> title s \<or> length_col (next_song df ! i) \<noteq> duration s"
  shows "filter (\<lambda>r. sp_songplay_id r = monotonically_increasing_id gap i) out = []"
proof -
  have ne: "\<not> join_on (next_song df ! i) s" if "s \<in> set song_df" for s
    using assms(3) that by (auto simp: join_on_def sql_eq_def split: option.splits)
  then have none: "filter (join_on (next_song df ! i)) song_df = []"
    by (simp add: filter_empty_conv)
  have "monotonically_increasing_id gap i \<notin> set (map sp_songplay_id out)"
  proof
    assume "monotonically_increasing_id gap i \<in> set (map sp_songplay_id out)"
    then have "monotonically_increasing_id gap i
        \<in> set (concat (map (\<lambda>i. replicate
                  (length (filter (join_on (next_song df ! i)) song_df))
                  (monotonically_increasing_id gap i)) [0..<length (next_song df)]))"
      unfolding songplays_table_ids [OF assms(1)] emit_order_set .
    then obtain j where j: "j < length (next_song df)"
      and m: "monotonically_increasing_id gap i
          \<in> set (replicate (length (filter (join_on (next_song df ! j)) song_df))
                  (monotonically_increasing_id gap j))"
      by auto
    from m have "monotonically_increasing_id gap i = monotonically_increasing_id gap j"
      and pos: "length (filter (join_on (next_song df ! j)) song_df) \<noteq> 0"
      by (auto simp: set_replicate_conv_if split: if_splits)
    then have "i = j" by (simp add: monotonically_increasing_id_inj)
    with pos none show False by simp
  qed
  then have "\<forall>r\<in>set out. sp_songplay_id r \<noteq> monotonically_increasing_id gap i"
    by (metis image_eqI set_map)
  then show ?thesis
    by (simp add: filter_empty_conv)
qed

theorem unmatched_play_dropped_witness:
  "songplays_table play_order no_gap utc (next_song [example_event, off_event]) [example_song]
     = Inr [\<lparr>sp_songplay_id = 0, sp_start_time = ''2018-11-02 01:25:34'',
              sp_user_id = ''10'', sp_level = ''free'', sp_song_id = ''S1'',
              sp_artist_id = ''A1'', sp_session_id = 139, sp_location = [],
              sp_user_agent = [], sp_year = 2018, sp_month = 11\<rparr>] \<and>
   (1::nat) < length (next_song [example_event, off_event]) \<and>
   next_song [example_event, off_event] ! 1 = off_event \<and>
   length_col off_event = Some 210.6 \<and> map duration [example_song] = [Some 210.5] \<and>
   monotonically_increasing_id no_gap 1 = 1 \<and>
   filter (\<lambda>r. sp_songplay_id r = 1)
     [\<lparr>sp_songplay_id = 0, sp_start_time = ''2018-11-02 01:25:34'',
              sp_user_id = ''10'', sp_level = ''free'', sp_song_id = ''S1'',
              sp_artist_id = ''A1'', sp_session_id = 139, sp_location = [],
              sp_user_agent = [], sp_year = 2018, sp_month = 11\<rparr>] = []"
proof -
  have h: "songplays_table play_order no_gap utc (next_song [example_event, off_event]) [example_song]
     = Inr [\<lparr>sp_songplay_id = 0, sp_start_time = ''2018-11-02 01:25:34'',
              sp_user_id = ''10'', sp_level = ''free'', sp_song_id = ''S1'',
              sp_artist_id = ''A1'', sp_session_id = 139, sp_location = [],
              sp_user_agent = [], sp_year = 2018, sp_month = 11\<rparr>]"
    by code_simp
  have n: "next_song [example_event, off_event] = [example_event, off_event]"
    by code_simp
  have d: "\<forall>s\<in>set [example_song]. length_col off_event \<noteq> duration s"
    by (simp add: off_event_def example_song_def)
  have i: "(1::nat) < length (next_song [example_event, off_event])"
    by (simp add: n)
  have u: "\<forall>s\<in>set [example_song].
      artist (next_song [example_event, off_event] ! 1) \<noteq> artist_name s \<or>
      song (next_song [example_event, off_event] ! 1) \<noteq> title s \<or>
      length_col (next_song [example_event, off_event] ! 1) \<noteq> duration s"
    using d by (simp add: n)
  have m: "monotonically_increasing_id no_gap 1 = 1"
    by code_simp
  have v: "length_col off_event = Some 210.6" "map duration [example_song] = [Some 210.5]"
    by (simp_all add: off_event_def example_song_def)
  show ?thesis
    using unmatched_play_dropped [OF h i u] h v i m by (simp add: n)
qed

text \<open>
  C10. The id is given to the play before the join: the id column of the
  songplays table holds, for each play, the play's id once for every catalog
  row the play matches, in the order in which the engine emits the rows (play
  by play when it emits them as listed). A play that matches k catalog rows
  has k rows, all with the same songplay\_id.
\<close>

theorem one_id_per_play:
  assumes "songplays_table perm gap tz (next_song df) song_df = Inr out"
  shows "map sp_songplay_id out
    = emit_order perm
        (concat (map (\<lambda>i. replicate (length (filter (join_on (next_song df ! i)) song_df))
                              (monotonically_increasing_id gap i))
                   [0..<length (next_song df)]))"
  using assms by (rule songplays_table_ids)

theorem one_id_per_play_witness:
  "songplays_table play_order no_gap utc (next_song [example_event]) [example_song, other_song]
     = Inr [\<lparr>sp_songplay_id = 0, sp_start_time = ''2018-11-02 01:25:34'',
              sp_user_id = ''10'', sp_level = ''free'', sp_song_id = ''S1'',
              sp_artist_id = ''A1'', sp_session_id = 139, sp_location = [],
              sp_user_agent = [], sp_year = 2018, sp_month = 11\<rparr>,
            \<lparr>sp_songplay_id = 0, sp_start_time = ''2018-11-02 01:25:34'',
              sp_user_id = ''10'', sp_level = ''free'', sp_song_id = ''S2'',
              sp_artist_id = ''A1'', sp_session_id = 139, sp_location = [],
              sp_user_agent = [], sp_year = 2018, sp_month = 11\<rparr>] \<and>
   [0, 0]
    = emit_order play_order
        (concat (map (\<lambda>i. replicate
            (length (filter (join_on (next_song [example_event] ! i)) [example_song, other_song]))
            (monotonically_increasing_id no_gap i))
          [0..<length (next_song [example_event])]))"
proof -
  have h: "songplays_table play_order no_gap utc (next_song [example_event]) [example_song, other_song]
     = Inr [\<lparr>sp_songplay_id = 0, sp_start_time = ''2018-11-02 01:25:34'',
              sp_user_id = ''10'', sp_level = ''free'', sp_song_id = ''S1'',
              sp_artist_id = ''A1'', sp_session_id = 139, sp_location = [],
              sp_user_agent = [], sp_year = 2018, sp_month = 11\<rparr>,
            \<lparr>sp_songplay_id = 0, sp_start_time = ''2018-11-02 01:25:34'',
              sp_user_id = ''10'', sp_level = ''free'', sp_song_id = ''S2'',
              sp_artist_id = ''A1'', sp_session_id = 139, sp_location = [],
              sp_user_agent = [], sp_year = 2018, sp_month = 11\<rparr>]"
    by code_simp
  show ?thesis
    using one_id_per_play [OF h] h by simp
qed

section \<open>The time zone\<close>

lemma fromtimestamp_shift:
  "fromtimestamp tz x = fromtimestamp utc (x + 1000 * tz (x div 1000))"
proof -
  have "(x + 1000 * tz (x div 1000)) div 1000 = x div 1000 + tz (x div 1000)"
    by simp
  then show ?thesis
    by (simp only: fromtimestamp_def utc_def Let_def add_0_right)
qed

text \<open>
  C3, as amended. For every event, the time columns (hour, day, week, month,
  year, weekday, start\_time) are those of the machine's local time: they are
  the columns that UTC gives for ts moved forward by the local offset from UTC
  in effect at ts, and the conversion raises for the one exactly when it
  raises for the other. They are the UTC columns of ts itself where that
  offset is zero.
\<close>

theorem time_columns_local:
  "map_sum id time_columns (with_time_columns tz e)
     = map_sum id time_columns
         (with_time_columns utc (e\<lparr>ts := ts e + 1000 * tz (ts e div 1000)\<rparr>))"
proof (cases "fromtimestamp tz (ts e)")
  case (Inl err)
  then have "fromtimestamp utc (ts (e\<lparr>ts := ts e + 1000 * tz (ts e div 1000)\<rparr>)) = Inl err"
    by (simp add: fromtimestamp_shift [of tz])
  with Inl show ?thesis
    by (simp only: with_time_columns_Inl)
next
  case (Inr dt)
  then have "fromtimestamp utc (ts (e\<lparr>ts := ts e + 1000 * tz (ts e div 1000)\<rparr>)) = Inr dt"
    by (simp add: fromtimestamp_shift [of tz])
  with Inr show ?thesis
    by (simp only: with_time_columns_Inr) (simp add: time_columns_def)
qed

theorem time_columns_zone_counterexample:
  "map_sum id time_columns (with_time_columns utc example_event)
     = Inr \<lparr>t_start_time = ''2018-11-02 01:25:34'', t_hour = 1, t_day = 2, t_week = ''44'',
            t_month = 11, t_year = 2018, t_weekday = ''Friday''\<rparr> \<and>
   map_sum id time_columns (with_time_columns utc_plus_1 example_event)
     = Inr \<lparr>t_start_time = ''2018-11-02 02:25:34'', t_hour = 2, t_day = 2, t_week = ''44'',
            t_month = 11, t_year = 2018, t_weekday = ''Friday''\<rparr>"
  by code_simp

section \<open>The key of the time table\<close>

lemma fromtimestamp_same_second:
  "x div 1000 = y div 1000 \<Longrightarrow> fromtimestamp tz x = fromtimestamp tz y"
  by (simp add: fromtimestamp_def)

text \<open>
  C4, as amended. The rows of the time table are keyed by start\_time, the
  local time of ts written to the second, not by ts: two events with
  page = NextSong whose ts lie in the same second, equal or not, get the same
  start\_time and the same time columns, so that no two distinct rows of the
  time table stand for them.
\<close>

theorem time_columns_same_second:
  assumes "ts e div 1000 = ts e' div 1000"
  shows "map_sum id time_columns (with_time_columns tz e)
    = map_sum id time_columns (with_time_columns tz e')"
proof -
  have f: "fromtimestamp tz (ts e) = fromtimestamp tz (ts e')"
    using assms by (rule fromtimestamp_same_second)
  show ?thesis
  proof (cases "fromtimestamp tz (ts e)")
    case (Inl err)
    with f have "fromtimestamp tz (ts e') = Inl err" by simp
    with Inl show ?thesis
      by (simp only: with_time_columns_Inl)
  next
    case (Inr dt)
    with f have "fromtimestamp tz (ts e') = Inr dt" by simp
    with Inr show ?thesis
      by (simp only: with_time_columns_Inr) (simp add: time_columns_def)
  qed
qed

theorem time_columns_same_second_witness:
  "ts example_event div 1000 = ts late_event div 1000 \<and>
   map_sum id time_columns (with_time_columns utc example_event)
     = map_sum id time_columns (with_time_columns utc late_event)"
proof -
  have h: "ts example_event div 1000 = ts late_event div 1000"
    by (simp add: example_event_def late_event_def)
  show ?thesis
    using time_columns_same_second [OF h, of utc] h by simp
qed

theorem time_rows_not_distinct_counterexample:
  "ts example_event = 1541121934796 \<and> ts late_event = 1541121934999 \<and>
   page example_event = ''NextSong'' \<and> page late_event = ''NextSong'' \<and>
   map_sum id time_columns (with_time_columns utc example_event)
     = Inr \<lparr>t_start_time = ''2018-11-02 01:25:34'', t_hour = 1, t_day = 2, t_week = ''44'',
            t_month = 11, t_year = 2018, t_weekday = ''Friday''\<rparr> \<and>
   map_sum id time_columns (with_time_columns utc late_event)
     = Inr \<lparr>t_start_time = ''2018-11-02 01:25:34'', t_hour = 1, t_day = 2, t_week = ''44'',
            t_month = 11, t_year = 2018, t_weekday = ''Friday''\<rparr>"
  by code_simp

section \<open>The dimension queries\<close>

lemma songs_table_raises: "songs_table df = Inl AnalysisException"
  by (simp add: songs_table_def spark_sql_distinct_on_def)

lemma artists_table_raises: "artists_table df = Inl AnalysisException"
  by (simp add: artists_table_def spark_sql_distinct_on_def)

lemma users_table_raises: "users_table df = Inl AnalysisException"
  by (simp add: users_table_def spark_sql_distinct_on_def)

lemma time_table_raises: "time_table tz df = Inl AnalysisException"
  by (simp add: time_table_def spark_sql_distinct_on_def)

text \<open>
  C5. The claim is that every dimension has one row per key. On one readable
  catalog file and one readable log file the run stops in the songs query,
  before anything is written, and process\_log\_data on its own stops in the
  users query: no dimension table is built.
\<close>

theorem dimension_tables_not_built:
  "main example_engine [Json [Some example_song]] [Json [Some example_event]]
     = (empty_output, Some AnalysisException) \<and>
   process_log_data example_engine [Json [Some example_event]] [Json [Some example_song]]
       empty_output
     = (empty_output, Some AnalysisException)"
  by (simp add: main_def process_song_data_def process_log_data_def songs_table_raises
      users_table_raises)

text \<open>
  C6. The claim is that the first-seen record of every key group is retained.
  On two catalog records with one song\_id (and one artist\_id), and on two
  plays of one user, each deduplicating query raises: no record of the group
  is retained.
\<close>

theorem dedup_queries_retain_no_row:
  "songs_table [Some example_song, Some renamed_song] = Inl AnalysisException \<and>
   artists_table [Some example_song, Some renamed_song] = Inl AnalysisException \<and>
   users_table (next_song [example_event, late_event]) = Inl AnalysisException \<and>
   song_id example_song = song_id renamed_song \<and>
   userId example_event = userId late_event"
  by (simp add: songs_table_raises artists_table_raises users_table_raises
      renamed_song_def late_event_def)

section \<open>Unreadable and malformed files\<close>

lemma spark_read_json_Inl:
  "spark_read_json fs = Inl err \<longleftrightarrow> err = ReadError \<and> Unreadable \<in> set fs"
  by (induction fs rule: spark_read_json.induct) (auto split: sum.splits)

lemma spark_read_json_Unreadable:
  "Unreadable \<in> set fs \<Longrightarrow> spark_read_json fs = Inl ReadError"
  by (simp add: spark_read_json_Inl)

lemma spark_read_json_records:
  "Unreadable \<notin> set fs \<Longrightarrow> spark_read_json fs = Inr (concat (map records fs))"
  by (induction fs rule: spark_read_json.induct) auto

text \<open>
  C8, as amended. When some input file under the catalog or log root is
  unreadable, the read raises: the function that reads it stops there with
  that error and writes nothing, and the run is aborted when the file is
  under the catalog root. When the files are readable and some are malformed,
  the reader skips none: every record of every file is in the data frame, a
  malformed one as a row of nulls. No file is ever skipped, so there is no
  count of skipped files.
\<close>

theorem unreadable_file_raises:
  "(Unreadable \<in> set song_data \<longrightarrow>
      process_song_data eng song_data out = (out, Some ReadError) \<and>
      main eng song_data log_data = (empty_output, Some ReadError)) \<and>
   (Unreadable \<in> set log_data \<longrightarrow>
      process_log_data eng log_data song_data out = (out, Some ReadError)) \<and>
   (Unreadable \<notin> set song_data \<longrightarrow>
      spark_read_json song_data = Inr (concat (map records song_data))) \<and>
   (Unreadable \<notin> set log_data \<longrightarrow>
      spark_read_json log_data = Inr (concat (map records log_data)))"
  by (simp add: process_song_data_def process_log_data_def main_def
      spark_read_json_Unreadable spark_read_json_records)

theorem unreadable_file_raises_witness:
  "Unreadable \<in> set [Json [Some example_song], Unreadable] \<and>
   process_song_data example_engine [Json [Some example_song], Unreadable] empty_output
     = (empty_output, Some ReadError) \<and>
   main example_engine [Json [Some example_song], Unreadable] [Json [Some example_event]]
     = (empty_output, Some ReadError) \<and>
   Unreadable \<in> set [Unreadable, Json [Some example_event]] \<and>
   process_log_data example_engine [Unreadable, Json [Some example_event]]
       [Json [Some example_song], Unreadable] empty_output
     = (empty_output, Some ReadError) \<and>
   Unreadable \<notin> set [Json [None, Some example_event], Json [Some late_event]] \<and>
   spark_read_json [Json [None, Some example_event], Json [Some late_event]]
     = Inr [None, Some example_event, Some late_event]"
proof -
  have s: "Unreadable \<in> set [Json [Some example_song], Unreadable :: catalog_record json_file]"
    by simp
  have l: "Unreadable \<in> set [Unreadable, Json [Some example_event]]"
    by simp
  have n: "Unreadable \<notin> set [Json [None, Some example_event], Json [Some late_event]]"
    by simp
  show ?thesis
    using unreadable_file_raises
        [of "[Json [Some example_song], Unreadable]" example_engine empty_output
          "[Json [Some example_event]]"]
      unreadable_file_raises
        [of "[Json [Some example_song], Unreadable]" example_engine empty_output
          "[Unreadable, Json [Some example_event]]"]
      unreadable_file_raises
        [of "[Json [Some example_song]]" example_engine empty_output
          "[Json [None, Some example_event], Json [Some late_event]]"]
      s l n
    by simp
qed

theorem file_not_skipped_counterexample:
  "process_song_data example_engine [Json [Some example_song], Unreadable] empty_output
     = (empty_output, Some ReadError) \<and>
   main example_engine [Json [Some example_song], Unreadable] [Json [Some example_event]]
     = (empty_output, Some ReadError) \<and>
   spark_read_json [Json [Some example_song], Json [None, Some other_song]]
     = Inr [Some example_song, None, Some other_song]"
  by (simp add: process_song_data_def main_def)

section \<open>The calendar round trip\<close>

lemma month_tables:
  assumes "2 \<le> m" "m \<le> 12"
  shows "DAYS_BEFORE_MONTH ! nat (m - 1) + (if m - 1 > 2 \<and> b then 1 else 0)
           + (DAYS_IN_MONTH ! nat (m - 1) + (if m - 1 = 2 \<and> b then 1 else 0))
         = DAYS_BEFORE_MONTH ! nat m + (if m > 2 \<and> b then 1 else 0)"
proof -
  from assms have "m = 2 \<or> m = 3 \<or> m = 4 \<or> m = 5 \<or> m = 6 \<or> m = 7 \<or> m = 8 \<or> m = 9
      \<or> m = 10 \<or> m = 11 \<or> m = 12"
    by arith
  then show ?thesis
    by (elim disjE) (simp_all add: DAYS_BEFORE_MONTH_def DAYS_IN_MONTH_def)
qed

lemma days_before_year_split:
  assumes "0 \<le> b" "b \<le> 3" "0 \<le> c" "c \<le> 24" "0 \<le> d" "d \<le> 3"
  shows "days_before_year (400 * a + 100 * b + 4 * c + d + 1)
           = 146097 * a + 36524 * b + 1461 * c + 365 * d"
proof -
  let ?y = "400 * a + 100 * b + 4 * c + d"
  have 4: "?y div 4 = 100 * a + 25 * b + c"
    by (rule int_div_pos_eq [where r = d]) (use assms in simp_all)
  have 100: "?y div 100 = 4 * a + b"
    by (rule int_div_pos_eq [where r = "4 * c + d"]) (use assms in simp_all)
  have 400: "?y div 400 = a"
    by (rule int_div_pos_eq [where r = "100 * b + 4 * c + d"]) (use assms in simp_all)
  show ?thesis
    unfolding days_before_year_def Let_def
    using 4 100 400 by simp
qed

lemma mod_step:
  fixes q r k :: int
  assumes "0 \<le> r" "r < k"
  shows "(k * q + r) mod k = r"
  by (rule int_mod_pos_eq [where q = q]) (use assms in simp_all)

lemma is_leap_split:
  assumes "0 \<le> b" "b \<le> 3" "0 \<le> c" "c \<le> 24" "0 \<le> d" "d \<le> 3"
  shows "is_leap (400 * a + 100 * b + 4 * c + d + 1) \<longleftrightarrow> d = 3 \<and> (c \<noteq> 24 \<or> b = 3)"
proof -
  let ?y = "400 * a + 100 * b + 4 * c + d + 1"
  have 4: "?y mod 4 = 0 \<longleftrightarrow> d = 3"
  proof (cases "d = 3")
    case True
    then have e: "?y = 4 * (100 * a + 25 * b + c + 1)" by simp
    have "?y mod 4 = 0" unfolding e by simp
    with True show ?thesis by simp
  next
    case False
    have eq: "?y = 4 * (100 * a + 25 * b + c) + (d + 1)" by simp
    have "?y mod 4 = d + 1"
      unfolding eq by (rule mod_step) (use assms False in simp_all)
    with False assms show ?thesis by simp
  qed
  have 100: "?y mod 100 = 0 \<longleftrightarrow> c = 24" if "d = 3"
  proof (cases "c = 24")
    case True
    with that have e: "?y = 100 * (4 * a + b + 1)" by simp
    have "?y mod 100 = 0" unfolding e by simp
    with True show ?thesis by simp
  next
    case False
    have eq: "?y = 100 * (4 * a + b) + (4 * c + 4)" using that by simp
    have "?y mod 100 = 4 * c + 4"
      unfolding eq by (rule mod_step) (use assms False in simp_all)
    with False assms show ?thesis by simp
  qed
  have 400: "?y mod 400 = 0 \<longleftrightarrow> b = 3" if "d = 3" "c = 24"
  proof (cases "b = 3")
    case True
    with that have e: "?y = 400 * (a + 1)" by simp
    have "?y mod 400 = 0" unfolding e by simp
    with True show ?thesis by simp
  next
    case False
    have eq: "?y = 400 * a + (100 * b + 100)" using that by simp
    have "?y mod 400 = 100 * b + 100"
      unfolding eq by (rule mod_step) (use assms False in simp_all)
    with False assms show ?thesis by simp
  qed
  show ?thesis
  proof (cases "d = 3")
    case False
    with 4 show ?thesis by (simp add: is_leap_def)
  next
    case d: True
    show ?thesis
    proof (cases "c = 24")
      case False
      with d 4 100 show ?thesis by (simp add: is_leap_def)
    next
      case True
      with d 4 100 400 show ?thesis by (simp add: is_leap_def)
    qed
  qed
qed

lemma ymd2ord_ord2ymd:
  "(case ord2ymd ordinal of (yr, m, d) \<Rightarrow> ymd2ord yr m d) = ordinal"
proof -
  define n where "n = ordinal - 1"
  define a where "a = n div 146097"
  define r1 where "r1 = n mod 146097"
  define b where "b = r1 div 36524"
  define r2 where "r2 = r1 mod 36524"
  define c where "c = r2 div 1461"
  define r3 where "r3 = r2 mod 1461"
  define d where "d = r3 div 365"
  define r4 where "r4 = r3 mod 365"
  define leapyear where "leapyear \<longleftrightarrow> d = 3 \<and> (c \<noteq> 24 \<or> b = 3)"
  define m where "m = (r4 + 50) div 32"
  define preceding where
    "preceding = DAYS_BEFORE_MONTH ! nat m + (if m > 2 \<and> leapyear then 1 else 0)"
  have o: "ord2ymd ordinal =
      (if d = 4 \<or> b = 4 then (a * 400 + 1 + b * 100 + c * 4 + d - 1, 12, 31)
       else if preceding > r4
         then (a * 400 + 1 + b * 100 + c * 4 + d, m - 1,
               r4 - (preceding -
                     (DAYS_IN_MONTH ! nat (m - 1) +
                      (if m - 1 = 2 \<and> leapyear then 1 else 0))) + 1)
         else (a * 400 + 1 + b * 100 + c * 4 + d, m, r4 - preceding + 1))"
    unfolding ord2ymd_def Let_def preceding_def m_def leapyear_def r4_def d_def r3_def c_def
      r2_def b_def r1_def a_def n_def
    by (rule refl)
  have n: "n = 146097 * a + r1" and r1: "0 \<le> r1" "r1 < 146097"
    by (simp_all add: a_def r1_def)
  have r1s: "r1 = 36524 * b + r2" and r2: "0 \<le> r2" "r2 < 36524"
    by (simp_all add: b_def r2_def)
  have r2s: "r2 = 1461 * c + r3" and r3: "0 \<le> r3" "r3 < 1461"
    by (simp_all add: c_def r3_def)
  have r3s: "r3 = 365 * d + r4" and r4: "0 \<le> r4" "r4 < 365"
    by (simp_all add: d_def r4_def)
  have b: "0 \<le> b" "b \<le> 4"
    using r1 r1s r2 by arith+
  have c: "0 \<le> c" "c \<le> 24"
    using r2 r2s r3 by arith+
  have d: "0 \<le> d" "d \<le> 4"
    using r3 r3s r4 by arith+
  have ord: "ordinal = 146097 * a + 36524 * b + 1461 * c + 365 * d + r4 + 1"
    using n r1s r2s r3s by (simp add: n_def)
  show ?thesis
  proof (cases "b = 4")
    case True
    with r1 r1s r2 have "r2 = 0" by arith
    with r2s r3 c have "c = 0" "r3 = 0" by arith+
    with r3s r4 d have "d = 0" "r4 = 0" by arith+
    have y: "a * 400 + 1 + b * 100 + c * 4 + d - 1 = 400 * a + 100 * 3 + 4 * 24 + 3 + 1"
      using True \<open>c = 0\<close> \<open>d = 0\<close> by simp
    have "days_before_year (400 * a + 100 * 3 + 4 * 24 + 3 + 1)
        = 146097 * a + 36524 * 3 + 1461 * 24 + 365 * 3"
      by (rule days_before_year_split) simp_all
    moreover have "is_leap (400 * a + 100 * 3 + 4 * 24 + 3 + 1)"
      by (subst is_leap_split) simp_all
    ultimately have e: "ymd2ord (400 * a + 100 * 3 + 4 * 24 + 3 + 1) 12 31 = 146097 * a + 146097"
      by (simp add: ymd2ord_def days_before_month_def DAYS_BEFORE_MONTH_def)
    have res: "ord2ymd ordinal = (400 * a + 100 * 3 + 4 * 24 + 3 + 1, 12, 31)"
      unfolding o using True y by simp
    show ?thesis
      unfolding res prod.case e
      using True \<open>c = 0\<close> \<open>d = 0\<close> \<open>r4 = 0\<close> ord by simp
  next
    case nb: False
    with b have b3: "b \<le> 3" by simp
    show ?thesis
    proof (cases "d = 4")
      case True
      with r3 r3s r4 have "r4 = 0" by arith
      from True r3s \<open>r4 = 0\<close> have "r3 = 1460" by simp
      with r2 r2s c have c23: "c \<le> 23" by arith
      have y: "a * 400 + 1 + b * 100 + c * 4 + d - 1 = 400 * a + 100 * b + 4 * c + 3 + 1"
        using True by simp
      have "days_before_year (400 * a + 100 * b + 4 * c + 3 + 1)
          = 146097 * a + 36524 * b + 1461 * c + 365 * 3"
        by (rule days_before_year_split) (use b b3 c in simp_all)
      moreover have "is_leap (400 * a + 100 * b + 4 * c + 3 + 1)"
        by (subst is_leap_split) (use b b3 c c23 in simp_all)
      ultimately have e: "ymd2ord (400 * a + 100 * b + 4 * c + 3 + 1) 12 31
          = 146097 * a + 36524 * b + 1461 * c + 1461"
        by (simp add: ymd2ord_def days_before_month_def DAYS_BEFORE_MONTH_def)
      have res: "ord2ymd ordinal = (400 * a + 100 * b + 4 * c + 3 + 1, 12, 31)"
        unfolding o using True y by simp
      show ?thesis
        unfolding res prod.case e
        using True \<open>r4 = 0\<close> ord by simp
    next
      case nd: False
      with d have d3: "d \<le> 3" by simp
      have y: "a * 400 + 1 + b * 100 + c * 4 + d = 400 * a + 100 * b + 4 * c + d + 1"
        by simp
      have dby: "days_before_year (400 * a + 100 * b + 4 * c + d + 1)
          = 146097 * a + 36524 * b + 1461 * c + 365 * d"
        by (rule days_before_year_split) (use b b3 c d d3 in simp_all)
      have leap: "is_leap (400 * a + 100 * b + 4 * c + d + 1) \<longleftrightarrow> leapyear"
        unfolding leapyear_def by (rule is_leap_split) (use b b3 c d d3 in simp_all)
      have m1: "1 \<le> m" and m12: "m \<le> 12"
        using r4 by (simp_all add: m_def)
      show ?thesis
      proof (cases "preceding > r4")
        case True
        have "m \<noteq> 1"
        proof
          assume "m = 1"
          then have "preceding = 0"
            by (simp add: preceding_def DAYS_BEFORE_MONTH_def)
          with True r4 show False by simp
        qed
        with m1 have m2: "2 \<le> m" by simp
        have t: "DAYS_BEFORE_MONTH ! nat (m - 1) + (if m - 1 > 2 \<and> leapyear then 1 else 0)
           + (DAYS_IN_MONTH ! nat (m - 1) + (if m - 1 = 2 \<and> leapyear then 1 else 0))
           = preceding"
          unfolding preceding_def using m2 m12 by (rule month_tables)
        have e: "ymd2ord (400 * a + 100 * b + 4 * c + d + 1) (m - 1)
            (r4 - (preceding -
                     (DAYS_IN_MONTH ! nat (m - 1) +
                      (if m - 1 = 2 \<and> leapyear then 1 else 0))) + 1)
          = 146097 * a + 36524 * b + 1461 * c + 365 * d + r4 + 1"
          unfolding ymd2ord_def days_before_month_def dby leap using t by simp
        have res: "ord2ymd ordinal = (400 * a + 100 * b + 4 * c + d + 1, m - 1,
            r4 - (preceding -
                     (DAYS_IN_MONTH ! nat (m - 1) +
                      (if m - 1 = 2 \<and> leapyear then 1 else 0))) + 1)"
          unfolding o using True nb nd by (simp only: y if_True if_False simp_thms)
        show ?thesis
          unfolding res prod.case e using ord by simp
      next
        case False
        have e: "ymd2ord (400 * a + 100 * b + 4 * c + d + 1) m (r4 - preceding + 1)
          = 146097 * a + 36524 * b + 1461 * c + 365 * d + r4 + 1"
          unfolding ymd2ord_def days_before_month_def dby leap preceding_def by simp
        have res: "ord2ymd ordinal
            = (400 * a + 100 * b + 4 * c + d + 1, m, r4 - preceding + 1)"
          unfolding o using False nb nd by (simp only: y if_True if_False simp_thms)
        show ?thesis
          unfolding res prod.case e using ord by simp
      qed
    qed
  qed
qed

lemma fromtimestamp_fields:
  assumes "fromtimestamp tz x = Inr dt"
  shows "ymd2ord (dt_year dt) (dt_month dt) (dt_day dt)
           = (x div 1000 + tz (x div 1000)) div 86400 + 719163"
    and "dt_hour dt = (x div 1000 + tz (x div 1000)) mod 86400 div 3600"
    and "dt_minute dt = (x div 1000 + tz (x div 1000)) mod 86400 mod 3600 div 60"
    and "dt_second dt = (x div 1000 + tz (x div 1000)) mod 86400 mod 60"
proof -
  let ?ord = "(x div 1000 + tz (x div 1000)) div 86400 + 719163"
  obtain yr m d where o: "ord2ymd ?ord = (yr, m, d)"
    by (cases "ord2ymd ?ord") auto
  from assms have dt: "dt = \<lparr>dt_year = yr, dt_month = m, dt_day = d,
      dt_hour = (x div 1000 + tz (x div 1000)) mod 86400 div 3600,
      dt_minute = (x div 1000 + tz (x div 1000)) mod 86400 mod 3600 div 60,
      dt_second = (x div 1000 + tz (x div 1000)) mod 86400 mod 60\<rparr>"
    by (simp add: fromtimestamp_def Let_def o split: if_splits)
  have "(case ord2ymd ?ord of (yr, m, d) \<Rightarrow> ymd2ord yr m d) = ?ord"
    by (rule ymd2ord_ord2ymd)
  then have "ymd2ord yr m d = ?ord"
    by (simp add: o)
  then show "ymd2ord (dt_year dt) (dt_month dt) (dt_day dt) = ?ord"
    by (simp add: dt)
  show "dt_hour dt = (x div 1000 + tz (x div 1000)) mod 86400 div 3600"
    and "dt_minute dt = (x div 1000 + tz (x div 1000)) mod 86400 mod 3600 div 60"
    and "dt_second dt = (x div 1000 + tz (x div 1000)) mod 86400 mod 60"
    by (simp_all add: dt)
qed

lemma hour_floor:
  fixes t :: int
  shows "t div 86400 * 86400 + t mod 86400 div 3600 * 3600 \<le> t"
    and "t < t div 86400 * 86400 + t mod 86400 div 3600 * 3600 + 3600"
proof -
  define q where "q = t div 86400"
  define s where "s = t mod 86400"
  define h where "h = s div 3600"
  define u where "u = s mod 3600"
  have t: "t = q * 86400 + s"
    by (simp add: q_def s_def)
  have s: "s = h * 3600 + u" and u: "0 \<le> u" "u < 3600"
    by (simp_all add: h_def u_def)
  show "t div 86400 * 86400 + t mod 86400 div 3600 * 3600 \<le> t"
    and "t < t div 86400 * 86400 + t mod 86400 div 3600 * 3600 + 3600"
    unfolding q_def [symmetric] s_def [symmetric] h_def [symmetric]
    using t s u by simp_all
qed

text \<open>
  C9, as amended. For every event whose ts the conversion accepts,
  recombining the (year, month, day, hour) columns gives the start of the
  hour of local time that contains ts: a time not after the local time of ts
  and less than 3600 seconds before it.
\<close>

theorem recombine_same_hour:
  assumes "with_time_columns tz e = Inr r"
  shows "recombine (year r) (month r) (day r) (hour r) \<le> ts e div 1000 + tz (ts e div 1000) \<and>
    ts e div 1000 + tz (ts e div 1000) < recombine (year r) (month r) (day r) (hour r) + 3600"
proof -
  from assms obtain dt where dt: "fromtimestamp tz (ts e) = Inr dt"
    by (cases "fromtimestamp tz (ts e)") (auto simp: with_time_columns_Inl)
  with assms have r: "year r = dt_year dt" "month r = dt_month dt" "day r = dt_day dt"
    "hour r = dt_hour dt"
    by (auto simp: with_time_columns_Inr)
  have "recombine (year r) (month r) (day r) (hour r)
      = (ts e div 1000 + tz (ts e div 1000)) div 86400 * 86400
        + (ts e div 1000 + tz (ts e div 1000)) mod 86400 div 3600 * 3600"
    unfolding recombine_def r fromtimestamp_fields [OF dt] by simp
  then show ?thesis
    using hour_floor [of "ts e div 1000 + tz (ts e div 1000)"] by simp
qed

theorem recombine_same_hour_witness:
  "with_time_columns utc example_event
     = Inr \<lparr>ev = example_event, timestamp = 1541121934, start_time = ''2018-11-02 01:25:34'',
            hour = 1, day = 2, week = ''44'', month = 11, year = 2018, weekday = ''Friday''\<rparr> \<and>
   recombine 2018 11 2 1 = 1541120400 \<and>
   ts example_event div 1000 + utc (ts example_event div 1000) = 1541121934 \<and>
   (1541120400 :: int) \<le> 1541121934 \<and> (1541121934 :: int) < 1541120400 + 3600"
proof -
  have h: "with_time_columns utc example_event
     = Inr \<lparr>ev = example_event, timestamp = 1541121934, start_time = ''2018-11-02 01:25:34'',
            hour = 1, day = 2, week = ''44'', month = 11, year = 2018, weekday = ''Friday''\<rparr>"
    by code_simp
  have v: "recombine 2018 11 2 1 = 1541120400"
    by code_simp
  have t: "ts example_event div 1000 + utc (ts example_event div 1000) = 1541121934"
    by code_simp
  show ?thesis
    using recombine_same_hour [OF h] h v t by simp
qed

theorem recombine_not_same_second_counterexample:
  "map_sum id (\<lambda>r. recombine (year r) (month r) (day r) (hour r))
     (with_time_columns utc example_event) = Inr 1541120400 \<and>
   ts example_event div 1000 = 1541121934"
  by code_simp

end
